theory Spec2Isabelle
  imports Main "HOL-Library.Word"
begin

unbundle bit_operations_syntax

section \<open>Identity tags: the compile-time hash of \<open>http_header.h\<close>\<close>

type_synonym uint64_t = "64 word"
type_synonym int16_t = "16 word"

text \<open>\<open>detail::basis\<close> and \<open>detail::prime\<close>.\<close>

definition basis :: uint64_t where
  "basis = 14695981039346656037"

definition prime :: uint64_t where
  "prime = 1099511628211"

text \<open>
  The operand \<open>c\<close> of \<open>value ^ c\<close> has type \<open>char\<close>; the usual arithmetic
  conversions bring it to \<open>unsigned long long\<close>. Whether plain \<open>char\<close> is signed is
  fixed by the platform, not by the header, so it is a parameter here: with a signed
  \<open>char\<close> the byte is sign-extended to 64 bits, with an unsigned one it is zero-extended.
\<close>

definition char_to_ull :: "bool \<Rightarrow> char \<Rightarrow> uint64_t" where
  "char_to_ull char_signed c =
     (if char_signed then scast (of_char c :: 8 word) else ucast (of_char c :: 8 word))"

text \<open>
  A \<open>const char *\<close> into a NUL-terminated string is the list of the characters from the
  pointer up to the terminator; \<open>p[0]\<close> is the head of the list, or the terminator when
  the list is exhausted, and \<open>p + 1\<close> is the tail.
\<close>

definition deref :: "string \<Rightarrow> char" where
  "deref p = (case p of [] \<Rightarrow> CHR 0x00 | c # _ \<Rightarrow> c)"

function hash_one :: "bool \<Rightarrow> char \<Rightarrow> string \<Rightarrow> uint64_t \<Rightarrow> uint64_t" where
  "hash_one char_signed c remain val =
     (if c = CHR 0x00 then val
      else hash_one char_signed (deref remain) (tl remain)
             ((val XOR char_to_ull char_signed c) * prime))"
  by pat_completeness auto
termination
  by (relation "measure (\<lambda>(sg, c, remain, v). length remain + (if c = CHR 0x00 then 0 else 1))")
     (auto simp: deref_def split: list.splits)

declare hash_one.simps [simp del]

definition hash :: "bool \<Rightarrow> string \<Rightarrow> uint64_t" where
  "hash char_signed str = hash_one char_signed (deref str) (tl str) basis"

text \<open>
  The 64-bit FNV-1a hash as the specification words it: start from the basis and, for each
  byte from left to right, XOR the byte into the accumulator and multiply by the prime,
  modulo \<open>2 ^ 64\<close>. The string of a \<open>const char *\<close> ends at its first NUL.
\<close>

definition FNV1a_64 :: "string \<Rightarrow> uint64_t" where
  "FNV1a_64 s = foldl (\<lambda>acc b. (acc XOR of_char b) * prime) basis s"

definition c_str :: "string \<Rightarrow> string" where
  "c_str p = takeWhile (\<lambda>c. c \<noteq> CHR 0x00) p"

definition seven_bit :: "string \<Rightarrow> bool" where
  "seven_bit s = list_all (\<lambda>c. (of_char c :: nat) < 128) s"

section \<open>Content codings and media types\<close>

datatype Encoding = Gzip | Compress | Deflate | Identity | Unknown

datatype Type = Star | Text | Image | Audio | Video | Application | Message | Multipart | Ext

datatype Subtype =
    Star | Plain | Html | Xhtml | Xml | Javascript | Css
  | Json | FormUrlEncoded
  | Png | Gif | Bmp | Jpeg
  | Ext

datatype Suffix = Json | Ber | Der | Fastinfoset | Wbxml | Zip | Xml | None' | Ext

text \<open>
  The enumerations are scoped, and so are the names here: \<open>Type.Ext\<close>, \<open>Subtype.Ext\<close>
  and \<open>Suffix.Ext\<close> are three enumerators. \<open>Suffix::None\<close> is written \<open>None'\<close> and the
  field \<open>top\<close> of \<open>MediaType\<close> is written \<open>top'\<close>.
\<close>

text \<open>The token tables of the macros \<open>MIME_TYPES\<close>, \<open>MIME_SUBTYPES\<close> and \<open>MIME_SUFFIXES\<close>.\<close>

definition MIME_TYPES :: "(Type \<times> string) list" where
  "MIME_TYPES =
     [(Type.Star, ''*''), (Type.Text, ''text''), (Type.Image, ''image''),
      (Type.Audio, ''audio''), (Type.Video, ''video''),
      (Type.Application, ''application''), (Type.Message, ''message''),
      (Type.Multipart, ''multipart'')]"

definition MIME_SUBTYPES :: "(Subtype \<times> string) list" where
  "MIME_SUBTYPES =
     [(Subtype.Star, ''*''), (Subtype.Plain, ''plain''), (Subtype.Html, ''html''),
      (Subtype.Xhtml, ''xhtml''), (Subtype.Xml, ''xml''),
      (Subtype.Javascript, ''javascript''), (Subtype.Css, ''css''),
      (Subtype.Json, ''json''), (Subtype.FormUrlEncoded, ''x-www-form-urlencoded''),
      (Subtype.Png, ''png''), (Subtype.Gif, ''gif''), (Subtype.Bmp, ''bmp''),
      (Subtype.Jpeg, ''jpeg'')]"

definition MIME_SUFFIXES :: "(Suffix \<times> string) list" where
  "MIME_SUFFIXES =
     [(Suffix.Json, ''json''), (Suffix.Ber, ''ber''), (Suffix.Der, ''der''),
      (Suffix.Fastinfoset, ''fastinfoset''), (Suffix.Wbxml, ''wbxml''),
      (Suffix.Zip, ''zip''), (Suffix.Xml, ''xml'')]"

text \<open>Class \<open>Mime::MediaType\<close>, its three constructors and \<open>operator==\<close>.\<close>

record MediaType =
  top' :: Type
  sub :: Subtype
  suffix :: Suffix

definition MediaType0 :: MediaType where
  "MediaType0 = \<lparr>top' = Type.Ext, sub = Subtype.Ext, suffix = Suffix.None'\<rparr>"

definition MediaType2 :: "Type \<Rightarrow> Subtype \<Rightarrow> MediaType" where
  "MediaType2 t s = \<lparr>top' = t, sub = s, suffix = Suffix.None'\<rparr>"

definition MediaType3 :: "Type \<Rightarrow> Subtype \<Rightarrow> Suffix \<Rightarrow> MediaType" where
  "MediaType3 t s x = \<lparr>top' = t, sub = s, suffix = x\<rparr>"

definition MediaType_eq :: "MediaType \<Rightarrow> MediaType \<Rightarrow> bool" where
  "MediaType_eq lhs rhs = (top' lhs = top' rhs \<and> sub lhs = sub rhs)"

section \<open>The concrete header classes\<close>

datatype header_class =
  ContentLengthC | HostC | UserAgentC | AcceptC | ContentEncodingC | ServerC | ContentTypeC

text \<open>What the macro \<open>NAME(header_name)\<close> declares in each class: \<open>Name\<close> and \<open>Hash\<close>.\<close>

fun Name :: "header_class \<Rightarrow> string" where
  "Name ContentLengthC = ''Content-Length''"
| "Name HostC = ''Host''"
| "Name UserAgentC = ''User-Agent''"
| "Name AcceptC = ''Accept''"
| "Name ContentEncodingC = ''Content-Encoding''"
| "Name ServerC = ''Server''"
| "Name ContentTypeC = ''Content-Type''"

definition Hash :: "bool \<Rightarrow> header_class \<Rightarrow> uint64_t" where
  "Hash char_signed cls = hash char_signed (Name cls)"

definition header_classes :: "header_class list" where
  "header_classes =
     [ContentLengthC, HostC, UserAgentC, AcceptC, ContentEncodingC, ServerC, ContentTypeC]"

record ContentLength =
  value' :: uint64_t

record Host =
  host' :: string
  port' :: int16_t

record UserAgent =
  ua' :: string

record Accept =
  data :: string

record ContentEncoding =
  encoding' :: Encoding

record Server =
  tokens' :: "string list"

record ContentType =
  mime' :: MediaType

text \<open>
  The private members \<open>value_\<close>, \<open>host_\<close>, \<open>port_\<close>, \<open>ua_\<close>, \<open>encoding_\<close>,
  \<open>tokens_\<close> and \<open>mime_\<close> are written with a prime in place of the underscore.
  The default constructors:
\<close>

definition ContentLength0 :: ContentLength where
  "ContentLength0 = \<lparr>value' = 0\<rparr>"

definition Host0 :: Host where
  "Host0 = \<lparr>host' = [], port' = - 1\<rparr>"

definition UserAgent0 :: UserAgent where
  "UserAgent0 = \<lparr>ua' = []\<rparr>"

definition Accept0 :: Accept where
  "Accept0 = \<lparr>data = []\<rparr>"

definition ContentEncoding0 :: ContentEncoding where
  "ContentEncoding0 = \<lparr>encoding' = Identity\<rparr>"

definition Server0 :: Server where
  "Server0 = \<lparr>tokens' = []\<rparr>"

definition ContentType0 :: ContentType where
  "ContentType0 = \<lparr>mime' = MediaType0\<rparr>"

text \<open>The accessors, each a \<open>const\<close> member that returns a copy of a field.\<close>

definition ContentLength_value :: "ContentLength \<Rightarrow> uint64_t" where
  "ContentLength_value self = value' self"

definition Host_host :: "Host \<Rightarrow> string" where
  "Host_host self = host' self"

definition Host_port :: "Host \<Rightarrow> int16_t" where
  "Host_port self = port' self"

definition UserAgent_ua :: "UserAgent \<Rightarrow> string" where
  "UserAgent_ua self = ua' self"

definition ContentEncoding_encoding :: "ContentEncoding \<Rightarrow> Encoding" where
  "ContentEncoding_encoding self = encoding' self"

definition Server_tokens :: "Server \<Rightarrow> string list" where
  "Server_tokens self = tokens' self"

definition ContentType_mime :: "ContentType \<Rightarrow> MediaType" where
  "ContentType_mime self = mime' self"

text \<open>
  An object seen through \<open>Header\<close>: its dynamic class and fields. The virtual members
  \<open>name()\<close> and \<open>hash()\<close> dispatch on the dynamic class and return its \<open>Name\<close> and
  \<open>Hash\<close>.
\<close>

datatype Header =
    HContentLength ContentLength
  | HHost Host
  | HUserAgent UserAgent
  | HAccept Accept
  | HContentEncoding ContentEncoding
  | HServer Server
  | HContentType ContentType

fun class_of :: "Header \<Rightarrow> header_class" where
  "class_of (HContentLength _) = ContentLengthC"
| "class_of (HHost _) = HostC"
| "class_of (HUserAgent _) = UserAgentC"
| "class_of (HAccept _) = AcceptC"
| "class_of (HContentEncoding _) = ContentEncodingC"
| "class_of (HServer _) = ServerC"
| "class_of (HContentType _) = ContentTypeC"

definition Header_name :: "Header \<Rightarrow> string" where
  "Header_name h = Name (class_of h)"

definition Header_hash :: "bool \<Rightarrow> Header \<Rightarrow> uint64_t" where
  "Header_hash char_signed h = Hash char_signed (class_of h)"

section \<open>Shared handles and \<open>header_cast\<close>\<close>

text \<open>
  A \<open>std::shared_ptr\<close> is its stored pointer (\<open>None\<close> for \<open>nullptr\<close>), the control block
  through which it owns an object (\<open>None\<close> when it owns nothing) and whether its element
  type is \<open>const\<close>. The two are separate: a handle made by the aliasing constructor stores
  a pointer to one object and owns another, or none. The store maps an address to the
  object that lives there, and a control block to the number of handles that share it.
  Calling a member through a handle that stores no pointer, or a pointer to no live object,
  is undefined behaviour: a \<open>fault\<close>.
\<close>

record shared_ptr =
  stored :: "nat option"
  owner :: "nat option"
  is_const :: bool

record 'o store =
  object_at :: "nat \<Rightarrow> 'o option"
  use_count :: "nat \<Rightarrow> nat"

datatype fault = NullDereference | DanglingDereference

definition nullptr :: "bool \<Rightarrow> shared_ptr" where
  "nullptr c = \<lparr>stored = None, owner = None, is_const = c\<rparr>"

text \<open>One more handle shares the control block \<open>b\<close>; a handle that owns nothing adds no owner.\<close>

definition add_owner :: "nat option \<Rightarrow> 'o store \<Rightarrow> 'o store" where
  "add_owner b st =
     (case b of
        None \<Rightarrow> st
      | Some c \<Rightarrow> st\<lparr>use_count := (use_count st)(c := Suc (use_count st c))\<rparr>)"

text \<open>
  \<open>std::static_pointer_cast\<close>: a new handle with the stored pointer of its argument that
  shares the argument's control block.
\<close>

definition static_pointer_cast :: "bool \<Rightarrow> shared_ptr \<Rightarrow> 'o store \<Rightarrow> shared_ptr \<times> 'o store" where
  "static_pointer_cast c r st =
     (\<lparr>stored = stored r, owner = owner r, is_const = c\<rparr>, add_owner (owner r) st)"

text \<open>
  The runtime tag \<open>from->hash()\<close> of the object behind a handle. \<open>vhash\<close> is the virtual
  \<open>hash()\<close> of the objects of the store.
\<close>

definition runtime_hash :: "('o \<Rightarrow> uint64_t) \<Rightarrow> shared_ptr \<Rightarrow> 'o store \<Rightarrow> fault + uint64_t" where
  "runtime_hash vhash frm st =
     (case stored frm of
        None \<Rightarrow> Inl NullDereference
      | Some a \<Rightarrow>
          (case object_at st a of
             None \<Rightarrow> Inl DanglingDereference
           | Some ob \<Rightarrow> Inr (vhash ob)))"

text \<open>
  The two overloads of \<open>header_cast<To>\<close>; \<open>To_Hash\<close> is the static member \<open>To::Hash\<close>.
  The first takes a \<open>shared_ptr<Header>\<close> and returns a \<open>shared_ptr<To>\<close>, the second takes
  a \<open>shared_ptr<const Header>\<close> and returns a \<open>shared_ptr<const To>\<close>.
\<close>

definition header_cast_mutable ::
  "('o \<Rightarrow> uint64_t) \<Rightarrow> uint64_t \<Rightarrow> shared_ptr \<Rightarrow> 'o store \<Rightarrow> fault + (shared_ptr \<times> 'o store)" where
  "header_cast_mutable vhash To_Hash frm st =
     (case runtime_hash vhash frm st of
        Inl f \<Rightarrow> Inl f
      | Inr h \<Rightarrow>
          if To_Hash = h then Inr (static_pointer_cast False frm st)
          else Inr (nullptr False, st))"

definition header_cast_const ::
  "('o \<Rightarrow> uint64_t) \<Rightarrow> uint64_t \<Rightarrow> shared_ptr \<Rightarrow> 'o store \<Rightarrow> fault + (shared_ptr \<times> 'o store)" where
  "header_cast_const vhash To_Hash frm st =
     (case runtime_hash vhash frm st of
        Inl f \<Rightarrow> Inl f
      | Inr h \<Rightarrow>
          if To_Hash = h then Inr (static_pointer_cast True frm st)
          else Inr (nullptr True, st))"

text \<open>Overload resolution picks the overload by the constness of the argument's element type.\<close>

definition header_cast ::
  "('o \<Rightarrow> uint64_t) \<Rightarrow> uint64_t \<Rightarrow> shared_ptr \<Rightarrow> 'o store \<Rightarrow> fault + (shared_ptr \<times> 'o store)" where
  "header_cast vhash To_Hash frm st =
     (if is_const frm then header_cast_const vhash To_Hash frm st
      else header_cast_mutable vhash To_Hash frm st)"

section \<open>Calling a member through a handle\<close>

datatype accessor =
  acc_value | acc_host | acc_port | acc_ua | acc_encoding | acc_tokens | acc_mime
  | acc_name | acc_hash

datatype returned =
    R_uint64 uint64_t
  | R_int16 int16_t
  | R_string string
  | R_Encoding Encoding
  | R_tokens "string list"
  | R_MediaType MediaType

text \<open>
  \<open>invoke\<close> runs one accessor on an object and gives what it returns together with the
  object afterwards. A class that does not declare the member gives \<open>None\<close>: such a call
  does not compile and nothing runs.
\<close>

fun invoke :: "bool \<Rightarrow> accessor \<Rightarrow> Header \<Rightarrow> returned option \<times> Header" where
  "invoke sg acc_value (HContentLength x) = (Some (R_uint64 (ContentLength_value x)), HContentLength x)"
| "invoke sg acc_host (HHost x) = (Some (R_string (Host_host x)), HHost x)"
| "invoke sg acc_port (HHost x) = (Some (R_int16 (Host_port x)), HHost x)"
| "invoke sg acc_ua (HUserAgent x) = (Some (R_string (UserAgent_ua x)), HUserAgent x)"
| "invoke sg acc_encoding (HContentEncoding x) =
     (Some (R_Encoding (ContentEncoding_encoding x)), HContentEncoding x)"
| "invoke sg acc_tokens (HServer x) = (Some (R_tokens (Server_tokens x)), HServer x)"
| "invoke sg acc_mime (HContentType x) = (Some (R_MediaType (ContentType_mime x)), HContentType x)"
| "invoke sg acc_name h = (Some (R_string (Header_name h)), h)"
| "invoke sg acc_hash h = (Some (R_uint64 (Header_hash sg h)), h)"
| "invoke sg _ h = (None, h)"

definition call ::
  "bool \<Rightarrow> accessor \<Rightarrow> shared_ptr \<Rightarrow> Header store \<Rightarrow> fault + (returned option \<times> Header store)" where
  "call sg acc p st =
     (case stored p of
        None \<Rightarrow> Inl NullDereference
      | Some a \<Rightarrow>
          (case object_at st a of
             None \<Rightarrow> Inl DanglingDereference
           | Some ob \<Rightarrow>
               (case invoke sg acc ob of
                  (r, h') \<Rightarrow> Inr (r, st\<lparr>object_at := (object_at st)(a \<mapsto> h')\<rparr>))))"

text \<open>
  No class of the header declares \<open>operator=\<close>, so each has the implicitly declared
  public copy assignment, which assigns member by member.
  \<open>assign self rhs\<close> is \<open>self = rhs\<close>; operands of two classes give \<open>None\<close>: that
  assignment does not compile.
\<close>

fun assign :: "Header \<Rightarrow> Header \<Rightarrow> Header option" where
  "assign (HContentLength x) (HContentLength y) = Some (HContentLength (x\<lparr>value' := value' y\<rparr>))"
| "assign (HHost x) (HHost y) = Some (HHost (x\<lparr>host' := host' y, port' := port' y\<rparr>))"
| "assign (HUserAgent x) (HUserAgent y) = Some (HUserAgent (x\<lparr>ua' := ua' y\<rparr>))"
| "assign (HAccept x) (HAccept y) = Some (HAccept (x\<lparr>data := data y\<rparr>))"
| "assign (HContentEncoding x) (HContentEncoding y) =
     Some (HContentEncoding (x\<lparr>encoding' := encoding' y\<rparr>))"
| "assign (HServer x) (HServer y) = Some (HServer (x\<lparr>tokens' := tokens' y\<rparr>))"
| "assign (HContentType x) (HContentType y) = Some (HContentType (x\<lparr>mime' := mime' y\<rparr>))"
| "assign _ _ = None"

text \<open>
  \<open>*p = rhs\<close> through a handle. The handle's element type must not be \<open>const\<close> and the
  classes must agree, or the statement does not compile (\<open>None\<close>).
\<close>

definition assign_through ::
  "shared_ptr \<Rightarrow> Header \<Rightarrow> Header store \<Rightarrow> (fault + Header store) option" where
  "assign_through p rhs st =
     (if is_const p then None
      else
        (case stored p of
           None \<Rightarrow> Some (Inl NullDereference)
         | Some a \<Rightarrow>
             (case object_at st a of
                None \<Rightarrow> Some (Inl DanglingDereference)
              | Some ob \<Rightarrow>
                  (case assign ob rhs of
                     None \<Rightarrow> None
                   | Some ob' \<Rightarrow> Some (Inr (st\<lparr>object_at := (object_at st)(a \<mapsto> ob')\<rparr>))))))"

section \<open>Texts outside the token tables\<close>

text \<open>
  A family of texts \<open>type/subtype\<close>, one for each number, whose type token \<open>z\<close>, \<open>zz\<close>,
  \<open>zzz\<close>, ... and subtype token \<open>z\<close> are in none of the tables.
\<close>

definition unknown_text :: "nat \<Rightarrow> string" where
  "unknown_text n = replicate (Suc n) (CHR ''z'') @ ''/z''"

section \<open>Parsing and writing header values\<close>

text \<open>
  \<open>http_header.h\<close> declares \<open>parse\<close>, \<open>parseRaw\<close>, \<open>write\<close>, \<open>encodingString\<close>,
  \<open>MediaType::fromRaw\<close>, \<open>MediaType::fromString\<close> and \<open>MediaType::toString\<close> and holds
  none of their bodies. The definitions of this section are modelled from the
  specification's sections 4.3, 4.4, 6 and 7, over the types the header declares. A
  \<open>parse\<close> or \<open>parseRaw\<close> here gives the error, or the header that a default-constructed
  object is after the call.
\<close>

text \<open>
  Modelled from the spec: the error of its section 7, a malformed header value that names
  the header and the offending text.
\<close>

datatype error = MalformedHeaderValue string string

text \<open>
  Modelled from the spec: the decimal digits and the whitespace that its parsing rules
  speak of, as the character classes of the C library.
\<close>

definition isdigit :: "char \<Rightarrow> bool" where
  "isdigit c = (48 \<le> (of_char c :: nat) \<and> (of_char c :: nat) \<le> 57)"

definition isspace :: "char \<Rightarrow> bool" where
  "isspace c = ((of_char c :: nat) = 32 \<or> (9 \<le> (of_char c :: nat) \<and> (of_char c :: nat) \<le> 13))"

definition digit_value :: "char \<Rightarrow> nat" where
  "digit_value c = of_char c - 48"

definition digit_char :: "nat \<Rightarrow> char" where
  "digit_char d = char_of (48 + d)"

text \<open>
  Modelled from the spec: the wire form of a number, ASCII decimal digits without sign and
  without leading zeros; \<open>show_int\<close> puts a minus sign before a negative number, as an
  output stream does.
\<close>

function decimal :: "nat \<Rightarrow> string" where
  "decimal n = (if n < 10 then [digit_char n] else decimal (n div 10) @ [digit_char (n mod 10)])"
  by pat_completeness auto
termination
  by (relation "measure id") auto

declare decimal.simps [simp del]

definition show_int :: "int \<Rightarrow> string" where
  "show_int i = (if i < 0 then CHR ''-'' # decimal (nat (- i)) else decimal (nat i))"

text \<open>Modelled from the spec: trimming, which drops leading and trailing whitespace.\<close>

definition trim :: "string \<Rightarrow> string" where
  "trim s = rev (dropWhile isspace (rev (dropWhile isspace s)))"

subsection \<open>ContentLength\<close>

text \<open>
  Modelled from the spec: \<open>ContentLength::parse\<close>, whose body the header does not hold.
  A run of decimal digits is scanned into an unsigned 64-bit accumulator, which wraps; an
  empty input and a non-digit before the first digit are malformed.
\<close>

fun scan_digits :: "uint64_t \<Rightarrow> string \<Rightarrow> uint64_t" where
  "scan_digits acc [] = acc"
| "scan_digits acc (c # cs) =
     (if isdigit c then scan_digits (acc * 10 + of_nat (digit_value c)) cs else acc)"

definition ContentLength_parse :: "string \<Rightarrow> error + ContentLength" where
  "ContentLength_parse input =
     (case input of
        [] \<Rightarrow> Inl (MalformedHeaderValue (Name ContentLengthC) input)
      | c # _ \<Rightarrow>
          if isdigit c then Inr (ContentLength0\<lparr>value' := scan_digits 0 input\<rparr>)
          else Inl (MalformedHeaderValue (Name ContentLengthC) input))"

text \<open>
  Modelled from the spec: \<open>ContentLength::write\<close>, ASCII decimal digits with no sign and
  no leading zeros beyond a single 0.
\<close>

definition ContentLength_write :: "ContentLength \<Rightarrow> string" where
  "ContentLength_write self = decimal (unat (value' self))"

subsection \<open>Host\<close>

text \<open>
  Modelled from the spec: \<open>Host::parse\<close>. The text is split on its last colon when it
  has one: the left part is the host and the right part, when it is a non-empty run of
  digits, is the port. Without a colon the port stays at the sentinel \<open>-1\<close> of the default
  constructor. A right part that is not all digits is the malformed port of section 7; the
  spec does not say what a run of digits beyond the signed 16-bit range gives, and it is
  reported malformed here as well.
\<close>

fun scan_nat :: "nat \<Rightarrow> string \<Rightarrow> nat" where
  "scan_nat acc [] = acc"
| "scan_nat acc (c # cs) = scan_nat (acc * 10 + digit_value c) cs"

definition before_last_colon :: "string \<Rightarrow> string" where
  "before_last_colon s = rev (tl (dropWhile (\<lambda>c. c \<noteq> CHR '':'') (rev s)))"

definition after_last_colon :: "string \<Rightarrow> string" where
  "after_last_colon s = rev (takeWhile (\<lambda>c. c \<noteq> CHR '':'') (rev s))"

definition Host_parse :: "string \<Rightarrow> error + Host" where
  "Host_parse input =
     (if CHR '':'' \<notin> set input then Inr (Host0\<lparr>host' := input\<rparr>)
      else
        let r = after_last_colon input in
        if r \<noteq> [] \<and> list_all isdigit r \<and> scan_nat 0 r \<le> 32767
        then Inr (Host0\<lparr>host' := before_last_colon input, port' := of_nat (scan_nat 0 r)\<rparr>)
        else Inl (MalformedHeaderValue (Name HostC) input))"

text \<open>
  Modelled from the spec: \<open>Host::write\<close>, the host alone when the port is \<open>-1\<close> and
  host, colon and port otherwise; the port is a signed 16-bit number.
\<close>

definition Host_write :: "Host \<Rightarrow> string" where
  "Host_write self =
     (if port' self = - 1 then host' self
      else host' self @ '':'' @ show_int (sint (port' self)))"

subsection \<open>Server\<close>

text \<open>
  Modelled from the spec: \<open>Server::parse\<close> splits the text on whitespace into its tokens,
  in their order. \<open>split_tokens\<close> walks the text once; \<open>cur\<close> is the token being read,
  latest character first.
\<close>

fun split_tokens :: "string \<Rightarrow> string \<Rightarrow> string list" where
  "split_tokens cur [] = (if cur = [] then [] else [rev cur])"
| "split_tokens cur (c # cs) =
     (if isspace c then (if cur = [] then split_tokens [] cs else rev cur # split_tokens [] cs)
      else split_tokens (c # cur) cs)"

definition Server_parse :: "string \<Rightarrow> error + Server" where
  "Server_parse input = Inr (Server0\<lparr>tokens' := split_tokens [] input\<rparr>)"

text \<open>
  Modelled from the spec: \<open>Server::write\<close> joins the tokens by a single space, in their
  order. A \<open>plain_token\<close> is a token that is not empty and holds no whitespace.
\<close>

fun join_tokens :: "string list \<Rightarrow> string" where
  "join_tokens [] = []"
| "join_tokens [t] = t"
| "join_tokens (t # ts) = t @ '' '' @ join_tokens ts"

definition Server_write :: "Server \<Rightarrow> string" where
  "Server_write self = join_tokens (tokens' self)"

definition plain_token :: "string \<Rightarrow> bool" where
  "plain_token t = (t \<noteq> [] \<and> \<not> list_ex isspace t)"

subsection \<open>ContentEncoding\<close>

text \<open>
  Modelled from the spec: \<open>encodingString\<close>, the lower-case literal of each coding. For
  \<open>Unknown\<close> it is the literal that section 4.5 of the spec names, \<open>unknown\<close>.
\<close>

fun encodingString :: "Encoding \<Rightarrow> string" where
  "encodingString Gzip = ''gzip''"
| "encodingString Compress = ''compress''"
| "encodingString Deflate = ''deflate''"
| "encodingString Identity = ''identity''"
| "encodingString Unknown = ''unknown''"

text \<open>
  Modelled from the spec: \<open>ContentEncoding::parseRaw\<close> takes the \<open>len\<close> bytes at \<open>str\<close>,
  trims them and matches the token, case-sensitively, against the closed set; no match is
  \<open>Unknown\<close>.
\<close>

definition encoding_of_token :: "string \<Rightarrow> Encoding" where
  "encoding_of_token t =
     (if t = ''gzip'' then Gzip
      else if t = ''compress'' then Compress
      else if t = ''deflate'' then Deflate
      else if t = ''identity'' then Identity
      else Unknown)"

definition ContentEncoding_parseRaw :: "string \<Rightarrow> nat \<Rightarrow> error + ContentEncoding" where
  "ContentEncoding_parseRaw str len =
     Inr (ContentEncoding0\<lparr>encoding' := encoding_of_token (trim (take len str))\<rparr>)"

text \<open>Modelled from the spec: \<open>ContentEncoding::write\<close> writes the literal of the coding.\<close>

definition ContentEncoding_write :: "ContentEncoding \<Rightarrow> string" where
  "ContentEncoding_write self = encodingString (encoding' self)"

subsection \<open>MediaType and ContentType\<close>

text \<open>
  Modelled from the spec: \<open>MediaType::fromString\<close> and \<open>fromRaw\<close>. The text is split on
  its first slash, the remainder on its first plus sign when it has one; each segment is
  looked up, case-sensitively, in its token table; a type, subtype or suffix that is not
  in its table is \<open>Ext\<close>, and an absent suffix is \<open>None\<close>.
\<close>

definition token_lookup :: "('a \<times> string) list \<Rightarrow> 'a \<Rightarrow> string \<Rightarrow> 'a" where
  "token_lookup table ext t =
     (case find (\<lambda>(v, lit). lit = t) table of None \<Rightarrow> ext | Some (v, lit) \<Rightarrow> v)"

definition fromString :: "string \<Rightarrow> MediaType" where
  "fromString s =
     (let t = takeWhile (\<lambda>c. c \<noteq> CHR ''/'') s;
          rest = drop 1 (dropWhile (\<lambda>c. c \<noteq> CHR ''/'') s);
          sb = takeWhile (\<lambda>c. c \<noteq> CHR ''+'') rest;
          sf = drop 1 (dropWhile (\<lambda>c. c \<noteq> CHR ''+'') rest)
      in \<lparr>top' = token_lookup MIME_TYPES Type.Ext t,
          sub = token_lookup MIME_SUBTYPES Subtype.Ext sb,
          suffix = (if CHR ''+'' \<in> set rest then token_lookup MIME_SUFFIXES Suffix.Ext sf
                    else Suffix.None')\<rparr>)"

definition fromRaw :: "string \<Rightarrow> nat \<Rightarrow> MediaType" where
  "fromRaw str len = fromString (take len str)"

text \<open>
  Modelled from the spec: \<open>MediaType::toString\<close> renders type, slash and subtype, and a
  plus sign and the suffix when the suffix is not \<open>None\<close>. A member of a table is rendered
  as its token. The enumerations of the header hold no text for \<open>Ext\<close> and nothing says
  what is rendered for it, so the three texts are parameters: \<open>et\<close> for \<open>Type::Ext\<close>,
  \<open>es\<close> for \<open>Subtype::Ext\<close> and \<open>ex\<close> for \<open>Suffix::Ext\<close>.
\<close>

definition token_of :: "('a \<times> string) list \<Rightarrow> string \<Rightarrow> 'a \<Rightarrow> string" where
  "token_of table ext v = (case map_of table v of None \<Rightarrow> ext | Some lit \<Rightarrow> lit)"

definition toString :: "string \<Rightarrow> string \<Rightarrow> string \<Rightarrow> MediaType \<Rightarrow> string" where
  "toString et es ex m =
     token_of MIME_TYPES et (top' m) @ ''/'' @ token_of MIME_SUBTYPES es (sub m) @
     (if suffix m = Suffix.None' then [] else ''+'' @ token_of MIME_SUFFIXES ex (suffix m))"

text \<open>
  Modelled from the spec: \<open>ContentType::parseRaw\<close> and \<open>ContentType::write\<close> delegate to
  the media type.
\<close>

definition ContentType_parseRaw :: "string \<Rightarrow> nat \<Rightarrow> error + ContentType" where
  "ContentType_parseRaw str len = Inr (ContentType0\<lparr>mime' := fromRaw str len\<rparr>)"

definition ContentType_write :: "string \<Rightarrow> string \<Rightarrow> string \<Rightarrow> ContentType \<Rightarrow> string" where
  "ContentType_write et es ex self = toString et es ex (mime' self)"

section \<open>The hash against FNV-1a\<close>

lemma hash_one_foldl:
  "hash_one sg c remain v =
     foldl (\<lambda>acc b. (acc XOR char_to_ull sg b) * prime) v (c_str (c # remain))"
proof (induction remain arbitrary: c v)
  case Nil
  show ?case
    by (simp add: hash_one.simps [of sg c "[]" v] hash_one.simps [of sg "CHR 0x00"] deref_def c_str_def)
next
  case (Cons r rs)
  show ?case
    by (simp add: hash_one.simps [of sg c "r # rs" v] deref_def Cons.IH) (simp add: c_str_def)
qed

lemma hash_foldl:
  "hash sg str = foldl (\<lambda>acc b. (acc XOR char_to_ull sg b) * prime) basis (c_str str)"
proof (cases str)
  case Nil
  then show ?thesis by (simp add: hash_def deref_def hash_one.simps [of sg "CHR 0x00"] c_str_def)
next
  case (Cons c cs)
  then show ?thesis by (simp add: hash_def deref_def hash_one_foldl)
qed

lemma of_char_lt_256: "(of_char c :: nat) < 256"
  by (cases c) simp

lemma char_to_ull_unsigned: "char_to_ull False c = of_char c"
proof -
  have "ucast (of_nat (of_char c) :: 8 word) = (of_nat (of_char c) :: 64 word)"
    using of_char_lt_256 [of c]
    by (simp add: unsigned_of_nat take_bit_nat_eq_self)
  then show ?thesis
    unfolding char_to_ull_def by (simp only: of_nat_of_char if_False)
qed

lemma char_to_ull_seven_bit:
  assumes "(of_char c :: nat) < 128"
  shows "char_to_ull sg c = of_char c"
proof (cases sg)
  case False
  then show ?thesis by (simp only: char_to_ull_unsigned)
next
  case True
  have "signed_take_bit 7 (int (of_char c)) = int (of_char c)"
    using assms by (simp add: signed_take_bit_int_eq_self)
  then have "scast (of_nat (of_char c) :: 8 word) = (of_nat (of_char c) :: 64 word)"
    by (simp only: signed_of_nat) simp
  then show ?thesis
    unfolding char_to_ull_def using True by (simp only: of_nat_of_char if_True)
qed

lemma foldl_cong_list:
  "list_all (\<lambda>b. f b = g b) s \<Longrightarrow> foldl (\<lambda>acc b. h acc (f b)) v s = foldl (\<lambda>acc b. h acc (g b)) v s"
  by (induction s arbitrary: v) simp_all

lemma hash_unsigned: "hash False str = FNV1a_64 (c_str str)"
  by (simp add: hash_foldl FNV1a_64_def char_to_ull_unsigned)

lemma hash_seven_bit:
  assumes "seven_bit (c_str str)"
  shows "hash sg str = FNV1a_64 (c_str str)"
proof -
  have "list_all (\<lambda>b. char_to_ull sg b = of_char b) (c_str str)"
    using assms unfolding seven_bit_def
    by (auto simp: list_all_iff char_to_ull_seven_bit)
  then have "foldl (\<lambda>acc b. (acc XOR char_to_ull sg b) * prime) basis (c_str str)
      = foldl (\<lambda>acc b. (acc XOR of_char b) * prime) basis (c_str str)"
    by (rule foldl_cong_list [where h = "\<lambda>acc x. (acc XOR x) * prime"])
  then show ?thesis by (simp add: hash_foldl FNV1a_64_def)
qed

text \<open>
  Claim C3. \<open>detail::hash\<close> equals the 64-bit FNV-1a hash for every NUL-terminated string.
  On a platform whose plain \<open>char\<close> is signed this fails for a byte of \<open>0x80\<close> and above:
  the byte is sign-extended before the XOR, which also flips the upper 56 bits of the
  accumulator. For the one-byte string \<open>\x80\<close> the function returns 5808531584386460767
  and FNV-1a is 12638293853183578463. (By \<open>hash_unsigned\<close> and \<open>hash_seven_bit\<close> the two
  agree wherever plain \<open>char\<close> is unsigned, and everywhere on strings of 7-bit characters.)
\<close>

theorem hash_signed_char_high_byte:
  "hash True [CHR 0x80] = 5808531584386460767 \<and>
   FNV1a_64 (c_str [CHR 0x80]) = 12638293853183578463"
  by (simp add: hash_foldl FNV1a_64_def c_str_def char_to_ull_def basis_def prime_def)

section \<open>Identity tags of the concrete headers and the safe cast\<close>

lemma Hash_FNV1a: "Hash sg cls = FNV1a_64 (Name cls)"
proof -
  have "c_str (Name cls) = Name cls" by (cases cls) (simp_all add: c_str_def)
  moreover have "seven_bit (Name cls)" by (cases cls) (simp_all add: seven_bit_def)
  ultimately show ?thesis using hash_seven_bit [of "Name cls" sg] by (simp add: Hash_def)
qed

lemma Hash_values:
  "map (Hash sg) header_classes =
     [11245195881701120957, 7711844645199659343, 17720564373354536238,
      1422604191031255529, 17193797470661523208, 6556302699635904946,
      13347276190653935221]"
  by (simp add: header_classes_def Hash_FNV1a FNV1a_64_def basis_def prime_def)

lemma Hash_inj: "Hash sg c = Hash sg d \<Longrightarrow> c = d"
  using Hash_values [of sg]
  by (cases c; cases d) (simp_all add: header_classes_def)

lemma header_cast_live:
  assumes "stored p = Some a" and "object_at st a = Some ob"
  shows "header_cast vhash T p st =
           Inr (if T = vhash ob
                then (\<lparr>stored = Some a, owner = owner p, is_const = is_const p\<rparr>,
                      add_owner (owner p) st)
                else (nullptr (is_const p), st))"
  using assms
  by (simp add: header_cast_def header_cast_const_def header_cast_mutable_def
      runtime_hash_def static_pointer_cast_def)

text \<open>
  Claim C2. The identity tags of the seven concrete header classes, each the hash of the
  class's name, are pairwise distinct. So for a handle that stores a pointer to a live
  object, \<open>header_cast<H>\<close> returns null when the object's class is one of the other six;
  when the object's runtime tag is \<open>H::Hash\<close> it returns a handle with the same stored
  pointer that shares the control block of the argument, and one more handle then shares
  that block.
\<close>

theorem concrete_hashes_distinct:
  "distinct (map (Hash sg) header_classes) \<and>
   (stored p = Some a \<and> object_at st a = Some ob \<longrightarrow>
      (class_of ob \<noteq> H \<longrightarrow>
         header_cast (Header_hash sg) (Hash sg H) p st = Inr (nullptr (is_const p), st)) \<and>
      (Header_hash sg ob = Hash sg H \<longrightarrow>
         header_cast (Header_hash sg) (Hash sg H) p st =
           Inr (\<lparr>stored = Some a, owner = owner p, is_const = is_const p\<rparr>,
                add_owner (owner p) st)))"
proof -
  have "distinct (map (Hash sg) header_classes)"
    by (simp only: Hash_values) simp
  moreover have "class_of ob \<noteq> H \<Longrightarrow> Hash sg H \<noteq> Header_hash sg ob"
    unfolding Header_hash_def using Hash_inj [of sg H "class_of ob"] by auto
  ultimately show ?thesis
    by (auto simp: header_cast_live)
qed

theorem concrete_hashes_distinct_witness:
  "distinct (map (Hash False) header_classes) \<and>
   class_of (HServer \<lparr>tokens' = [''pistache/0.1'']\<rparr>) \<noteq> AcceptC \<and>
   header_cast (Header_hash False) (Hash False AcceptC)
       \<lparr>stored = Some 3, owner = Some 5, is_const = False\<rparr>
       \<lparr>object_at = [3 \<mapsto> HServer \<lparr>tokens' = [''pistache/0.1'']\<rparr>],
        use_count = (\<lambda>b. 0)(5 := 2)\<rparr>
     = Inr (nullptr False,
            \<lparr>object_at = [3 \<mapsto> HServer \<lparr>tokens' = [''pistache/0.1'']\<rparr>],
             use_count = (\<lambda>b. 0)(5 := 2)\<rparr>) \<and>
   Header_hash False (HServer \<lparr>tokens' = [''pistache/0.1'']\<rparr>) = Hash False ServerC \<and>
   header_cast (Header_hash False) (Hash False ServerC)
       \<lparr>stored = Some 3, owner = Some 5, is_const = False\<rparr>
       \<lparr>object_at = [3 \<mapsto> HServer \<lparr>tokens' = [''pistache/0.1'']\<rparr>],
        use_count = (\<lambda>b. 0)(5 := 2)\<rparr>
     = Inr (\<lparr>stored = Some 3, owner = Some 5, is_const = False\<rparr>,
            \<lparr>object_at = [3 \<mapsto> HServer \<lparr>tokens' = [''pistache/0.1'']\<rparr>],
             use_count = (\<lambda>b. 0)(5 := 3)\<rparr>)"
  using concrete_hashes_distinct
      [of False "\<lparr>stored = Some 3, owner = Some 5, is_const = False\<rparr>" 3
          "\<lparr>object_at = [3 \<mapsto> HServer \<lparr>tokens' = [''pistache/0.1'']\<rparr>],
            use_count = (\<lambda>b. 0)(5 := 2)\<rparr>"
          "HServer \<lparr>tokens' = [''pistache/0.1'']\<rparr>" AcceptC]
    concrete_hashes_distinct
      [of False "\<lparr>stored = Some 3, owner = Some 5, is_const = False\<rparr>" 3
          "\<lparr>object_at = [3 \<mapsto> HServer \<lparr>tokens' = [''pistache/0.1'']\<rparr>],
            use_count = (\<lambda>b. 0)(5 := 2)\<rparr>"
          "HServer \<lparr>tokens' = [''pistache/0.1'']\<rparr>" ServerC]
  by (simp add: Header_hash_def add_owner_def numeral_3_eq_3 numeral_2_eq_2)

text \<open>
  Claim C1, amended. For every \<open>To\<close> (given by its tag \<open>To::Hash\<close>), every virtual
  \<open>hash()\<close> and every handle that stores a pointer to a live object, \<open>header_cast<To>\<close>
  returns without a fault. Exactly when the object's runtime tag equals \<open>To::Hash\<close> the
  result is not null: it stores the same pointer and shares ownership with the argument,
  that is, it has the argument's control block, and one more handle shares that block (a
  handle that owns nothing yields a handle that owns nothing, and no count changes).
  Otherwise the result is null and the store is untouched. The result's element type is
  \<open>const\<close> exactly when the argument's is.
\<close>

theorem header_cast_live_handle:
  "stored p = Some a \<and> object_at st a = Some ob \<longrightarrow>
     header_cast vhash To_Hash p st =
       Inr (if To_Hash = vhash ob
            then (\<lparr>stored = Some a, owner = owner p, is_const = is_const p\<rparr>,
                  (case owner p of
                     None \<Rightarrow> st
                   | Some b \<Rightarrow> st\<lparr>use_count := (use_count st)(b := Suc (use_count st b))\<rparr>))
            else (nullptr (is_const p), st))"
  by (simp add: header_cast_live add_owner_def)

theorem header_cast_live_handle_witness:
  "header_cast (Header_hash True) (Hash True ContentLengthC)
       \<lparr>stored = Some 0, owner = Some 0, is_const = True\<rparr>
       \<lparr>object_at = [0 \<mapsto> HContentLength \<lparr>value' = 42\<rparr>], use_count = (\<lambda>b. 0)(0 := 1)\<rparr>
     = Inr (\<lparr>stored = Some 0, owner = Some 0, is_const = True\<rparr>,
            \<lparr>object_at = [0 \<mapsto> HContentLength \<lparr>value' = 42\<rparr>],
             use_count = (\<lambda>b. 0)(0 := 2)\<rparr>) \<and>
   header_cast (Header_hash True) (Hash True ContentLengthC)
       \<lparr>stored = Some 0, owner = None, is_const = False\<rparr>
       \<lparr>object_at = [0 \<mapsto> HContentLength \<lparr>value' = 42\<rparr>], use_count = (\<lambda>b. 0)\<rparr>
     = Inr (\<lparr>stored = Some 0, owner = None, is_const = False\<rparr>,
            \<lparr>object_at = [0 \<mapsto> HContentLength \<lparr>value' = 42\<rparr>], use_count = (\<lambda>b. 0)\<rparr>) \<and>
   header_cast (Header_hash True) (Hash True HostC)
       \<lparr>stored = Some 0, owner = Some 0, is_const = False\<rparr>
       \<lparr>object_at = [0 \<mapsto> HContentLength \<lparr>value' = 42\<rparr>], use_count = (\<lambda>b. 0)(0 := 1)\<rparr>
     = Inr (nullptr False,
            \<lparr>object_at = [0 \<mapsto> HContentLength \<lparr>value' = 42\<rparr>],
             use_count = (\<lambda>b. 0)(0 := 1)\<rparr>)"
proof -
  have neq: "Hash True HostC \<noteq> Hash True ContentLengthC"
    using Hash_inj [of True HostC ContentLengthC] by auto
  show ?thesis
    using header_cast_live_handle
      [of "\<lparr>stored = Some 0, owner = Some 0, is_const = True\<rparr>" 0
          "\<lparr>object_at = [0 \<mapsto> HContentLength \<lparr>value' = 42\<rparr>], use_count = (\<lambda>b. 0)(0 := 1)\<rparr>"
          "HContentLength \<lparr>value' = 42\<rparr>" "Header_hash True" "Hash True ContentLengthC"]
      header_cast_live_handle
      [of "\<lparr>stored = Some 0, owner = None, is_const = False\<rparr>" 0
          "\<lparr>object_at = [0 \<mapsto> HContentLength \<lparr>value' = 42\<rparr>], use_count = (\<lambda>b. 0)\<rparr>"
          "HContentLength \<lparr>value' = 42\<rparr>" "Header_hash True" "Hash True ContentLengthC"]
      header_cast_live_handle
      [of "\<lparr>stored = Some 0, owner = Some 0, is_const = False\<rparr>" 0
          "\<lparr>object_at = [0 \<mapsto> HContentLength \<lparr>value' = 42\<rparr>], use_count = (\<lambda>b. 0)(0 := 1)\<rparr>"
          "HContentLength \<lparr>value' = 42\<rparr>" "Header_hash True" "Hash True HostC"]
      neq
    by (simp add: Header_hash_def numeral_2_eq_2)
qed

text \<open>
  Claim C1 as stated ranges over every shared handle. A null handle is one, and there the
  cast neither returns a casted handle nor returns null: \<open>from->hash()\<close> calls a virtual
  member through a null pointer.
\<close>

theorem header_cast_null_handle_faults:
  "header_cast (Header_hash True) (Hash True ContentLengthC) (nullptr False)
     \<lparr>object_at = (Map.empty :: nat \<Rightarrow> Header option), use_count = (\<lambda>b. 0)\<rparr>
   = Inl NullDereference"
  by (simp add: header_cast_def header_cast_mutable_def runtime_hash_def nullptr_def)

section \<open>Media type equality\<close>

text \<open>
  Claim C5. Two media types are equal under \<open>operator==\<close> if and only if their types and
  their subtypes are equal; the suffix takes no part, so a media type equals itself with
  any other suffix, and \<open>MediaType{Application, Json, Json}\<close> equals
  \<open>MediaType{Application, Json, None}\<close>.
\<close>

theorem MediaType_eq_ignores_suffix:
  "MediaType_eq a b = (top' a = top' b \<and> sub a = sub b) \<and>
   MediaType_eq (a\<lparr>suffix := s\<rparr>) a \<and>
   MediaType_eq (MediaType3 Type.Application Subtype.Json Suffix.Json)
                (MediaType3 Type.Application Subtype.Json Suffix.None')"
  by (simp add: MediaType_eq_def MediaType3_def)

section \<open>Accessors\<close>

lemma invoke_frame: "snd (invoke sg acc h) = h"
  by (induction sg acc h rule: invoke.induct) simp_all

lemma call_frame:
  assumes "call sg acc p st = Inr (r, st')"
  shows "st' = st"
proof -
  from assms obtain a ob where a: "stored p = Some a" and ob: "object_at st a = Some ob"
    by (auto simp: call_def split: option.splits)
  obtain r' h' where inv: "invoke sg acc ob = (r', h')"
    by (cases "invoke sg acc ob")
  then have "h' = ob"
    using invoke_frame [of sg acc ob] by simp
  with assms a ob inv have "st' = st\<lparr>object_at := (object_at st)(a \<mapsto> ob)\<rparr>"
    by (simp add: call_def)
  with ob show ?thesis
    by (simp add: map_upd_triv)
qed

text \<open>
  Claim C9, amended. Every accessor (\<open>value\<close>, \<open>host\<close>, \<open>port\<close>, \<open>ua\<close>, \<open>encoding\<close>,
  \<open>tokens\<close>, \<open>mime\<close>, \<open>name\<close>, \<open>hash\<close>) leaves the object it is called on as it was, and
  a call through any handle leaves the whole store as it was, so every other holder of a
  handle reads the same fields afterwards: a parsed header is shared read-only among
  consumers that call accessors only.
\<close>

theorem accessors_leave_store:
  "snd (invoke sg acc h) = h \<and>
   (call sg acc p st = Inr (r, st') \<longrightarrow> st' = st \<and> call sg acc2 q st' = call sg acc2 q st)"
  using call_frame [of sg acc p st r st'] by (auto simp: invoke_frame)

theorem accessors_leave_store_witness:
  "call False acc_port \<lparr>stored = Some 7, owner = Some 7, is_const = True\<rparr>
       \<lparr>object_at = [7 \<mapsto> HHost \<lparr>host' = ''example.com'', port' = 8080\<rparr>],
        use_count = (\<lambda>b. 0)(7 := 2)\<rparr>
     = Inr (Some (R_int16 8080),
            \<lparr>object_at = [7 \<mapsto> HHost \<lparr>host' = ''example.com'', port' = 8080\<rparr>],
             use_count = (\<lambda>b. 0)(7 := 2)\<rparr>)"
  using accessors_leave_store
      [of False acc_port "HHost \<lparr>host' = ''example.com'', port' = 8080\<rparr>"
          "\<lparr>stored = Some 7, owner = Some 7, is_const = True\<rparr>"
          "\<lparr>object_at = [7 \<mapsto> HHost \<lparr>host' = ''example.com'', port' = 8080\<rparr>],
            use_count = (\<lambda>b. 0)(7 := 2)\<rparr>"
          "Some (R_int16 8080)"
          "\<lparr>object_at = [7 \<mapsto> HHost \<lparr>host' = ''example.com'', port' = 8080\<rparr>],
            use_count = (\<lambda>b. 0)(7 := 2)\<rparr>"]
  by (simp add: call_def Host_port_def)

text \<open>
  Claim C9 as stated says that no variant exposes an operation, other than the parse entry
  points, that changes its stored value. The implicitly declared copy assignment is such
  an operation. With a \<open>ContentLength\<close> of 42 in the store, \<open>header_cast<ContentLength>\<close>
  on a \<open>shared_ptr<Header>\<close> gives a \<open>shared_ptr<ContentLength>\<close>; assigning
  \<open>ContentLength(7)\<close> through it changes the object, and \<open>value()\<close> through the first
  handle then returns 7.
\<close>

theorem assignment_changes_stored_value:
  "header_cast (Header_hash True) (Hash True ContentLengthC)
       \<lparr>stored = Some 0, owner = Some 0, is_const = False\<rparr>
       \<lparr>object_at = [0 \<mapsto> HContentLength \<lparr>value' = 42\<rparr>], use_count = (\<lambda>b. 0)(0 := 1)\<rparr>
     = Inr (\<lparr>stored = Some 0, owner = Some 0, is_const = False\<rparr>,
            \<lparr>object_at = [0 \<mapsto> HContentLength \<lparr>value' = 42\<rparr>],
             use_count = (\<lambda>b. 0)(0 := 2)\<rparr>) \<and>
   assign_through \<lparr>stored = Some 0, owner = Some 0, is_const = False\<rparr>
       (HContentLength \<lparr>value' = 7\<rparr>)
       \<lparr>object_at = [0 \<mapsto> HContentLength \<lparr>value' = 42\<rparr>], use_count = (\<lambda>b. 0)(0 := 2)\<rparr>
     = Some (Inr \<lparr>object_at = [0 \<mapsto> HContentLength \<lparr>value' = 7\<rparr>],
                  use_count = (\<lambda>b. 0)(0 := 2)\<rparr>) \<and>
   call True acc_value \<lparr>stored = Some 0, owner = Some 0, is_const = False\<rparr>
       \<lparr>object_at = [0 \<mapsto> HContentLength \<lparr>value' = 42\<rparr>], use_count = (\<lambda>b. 0)(0 := 2)\<rparr>
     = Inr (Some (R_uint64 42),
            \<lparr>object_at = [0 \<mapsto> HContentLength \<lparr>value' = 42\<rparr>],
             use_count = (\<lambda>b. 0)(0 := 2)\<rparr>) \<and>
   call True acc_value \<lparr>stored = Some 0, owner = Some 0, is_const = False\<rparr>
       \<lparr>object_at = [0 \<mapsto> HContentLength \<lparr>value' = 7\<rparr>], use_count = (\<lambda>b. 0)(0 := 2)\<rparr>
     = Inr (Some (R_uint64 7),
            \<lparr>object_at = [0 \<mapsto> HContentLength \<lparr>value' = 7\<rparr>],
             use_count = (\<lambda>b. 0)(0 := 2)\<rparr>)"
  by (simp add: header_cast_live Header_hash_def add_owner_def numeral_2_eq_2
      assign_through_def call_def ContentLength_value_def)

section \<open>Decimal numbers\<close>

lemma of_char_digit_char: "d < 10 \<Longrightarrow> (of_char (digit_char d) :: nat) = 48 + d"
  by (simp add: digit_char_def of_char_of)

lemma isdigit_digit_char: "d < 10 \<Longrightarrow> isdigit (digit_char d)"
  by (simp add: isdigit_def of_char_digit_char)

lemma digit_value_digit_char: "d < 10 \<Longrightarrow> digit_value (digit_char d) = d"
  by (simp add: digit_value_def of_char_digit_char)

lemma isdigit_not_colon: "isdigit c \<Longrightarrow> c \<noteq> CHR '':''"
  by (auto simp: isdigit_def)

lemma decimal_digits: "list_all isdigit (decimal n)"
proof (induction n rule: decimal.induct)
  case (1 n)
  show ?case
  proof (cases "n < 10")
    case True
    then show ?thesis by (simp add: decimal.simps [of n] isdigit_digit_char)
  next
    case False
    with 1 show ?thesis by (simp add: decimal.simps [of n] isdigit_digit_char)
  qed
qed

lemma decimal_not_Nil: "decimal n \<noteq> []"
  by (simp add: decimal.simps [of n])

lemma scan_digits_append:
  "list_all isdigit xs \<Longrightarrow> scan_digits acc (xs @ ys) = scan_digits (scan_digits acc xs) ys"
  by (induction xs arbitrary: acc) simp_all

lemma scan_digits_decimal: "scan_digits 0 (decimal n) = of_nat n"
proof (induction n rule: decimal.induct)
  case (1 n)
  show ?case
  proof (cases "n < 10")
    case True
    then show ?thesis
      by (simp add: decimal.simps [of n] isdigit_digit_char digit_value_digit_char)
  next
    case False
    have "scan_digits 0 (decimal n) =
            scan_digits (scan_digits 0 (decimal (n div 10))) [digit_char (n mod 10)]"
      using False by (simp add: decimal.simps [of n] scan_digits_append decimal_digits)
    also have "\<dots> = of_nat (n div 10) * 10 + of_nat (n mod 10)"
      using False 1 by (simp add: isdigit_digit_char digit_value_digit_char)
    also have "\<dots> = of_nat (n div 10 * 10 + n mod 10)"
      by (simp only: of_nat_add of_nat_mult of_nat_numeral)
    also have "n div 10 * 10 + n mod 10 = n"
      by simp
    finally show ?thesis .
  qed
qed

lemma scan_nat_append: "scan_nat acc (xs @ ys) = scan_nat (scan_nat acc xs) ys"
  by (induction xs arbitrary: acc) simp_all

lemma scan_nat_decimal: "scan_nat 0 (decimal n) = n"
proof (induction n rule: decimal.induct)
  case (1 n)
  show ?case
  proof (cases "n < 10")
    case True
    then show ?thesis
      by (simp add: decimal.simps [of n] digit_value_digit_char)
  next
    case False
    with 1 show ?thesis
      by (simp add: decimal.simps [of n] scan_nat_append digit_value_digit_char)
  qed
qed

lemma ContentLength_roundtrip: "ContentLength_parse (ContentLength_write x) = Inr x"
proof -
  obtain c cs where d: "decimal (unat (value' x)) = c # cs"
    using decimal_not_Nil [of "unat (value' x)"] by (cases "decimal (unat (value' x))") auto
  have "isdigit c"
    using decimal_digits [of "unat (value' x)"] d by simp
  moreover have "scan_digits 0 (c # cs) = value' x"
    using scan_digits_decimal [of "unat (value' x)"] d by simp
  ultimately show ?thesis
    by (simp add: ContentLength_parse_def ContentLength_write_def d ContentLength0_def)
qed

section \<open>Round trips of the header values\<close>

lemma sint_nonneg_roundtrip:
  fixes p :: int16_t
  assumes "0 \<le> sint p"
  shows "word_of_nat (nat (sint p)) = p" and "nat (sint p) \<le> 32767" and "p \<noteq> - 1"
proof -
  have "(word_of_nat (nat (sint p)) :: int16_t) = word_of_int (sint p)"
    using assms by (simp add: word_of_nat_eq_iff of_nat_nat)
  then show "word_of_nat (nat (sint p)) = p" by simp
  have "sint p < 2 ^ (LENGTH(16) - 1)" by (rule sint_lt)
  then show "nat (sint p) \<le> 32767" by simp
  show "p \<noteq> - 1" using assms by auto
qed

lemma split_last_colon:
  assumes "list_all isdigit ds"
  shows "after_last_colon (h @ CHR '':'' # ds) = ds"
    and "before_last_colon (h @ CHR '':'' # ds) = h"
proof -
  have nc: "\<forall>c \<in> set (rev ds). c \<noteq> CHR '':''"
    using assms by (auto simp: list_all_iff dest: isdigit_not_colon)
  have "takeWhile (\<lambda>c. c \<noteq> CHR '':'') (rev ds @ CHR '':'' # rev h) = rev ds"
    using nc by (simp add: takeWhile_tail)
  then show "after_last_colon (h @ CHR '':'' # ds) = ds"
    by (simp add: after_last_colon_def)
  have "dropWhile (\<lambda>c. c \<noteq> CHR '':'') (rev ds @ CHR '':'' # rev h) = CHR '':'' # rev h"
    using nc dropWhile_append2 [of "rev ds" "\<lambda>c. c \<noteq> CHR '':''" "CHR '':'' # rev h"] by simp
  then show "before_last_colon (h @ CHR '':'' # ds) = h"
    by (simp add: before_last_colon_def)
qed

lemma Host_roundtrip:
  assumes "(port' x = - 1 \<and> CHR '':'' \<notin> set (host' x)) \<or> 0 \<le> sint (port' x)"
  shows "Host_parse (Host_write x) = Inr x"
proof (cases "0 \<le> sint (port' x)")
  case True
  let ?n = "nat (sint (port' x))"
  have w: "Host_write x = host' x @ CHR '':'' # decimal ?n"
    using True sint_nonneg_roundtrip(3) [of "port' x"] by (simp add: Host_write_def show_int_def)
  have "Host_parse (host' x @ CHR '':'' # decimal ?n) =
          Inr (Host0\<lparr>host' := host' x, port' := of_nat ?n\<rparr>)"
    using sint_nonneg_roundtrip(2) [OF True]
    by (simp add: Host_parse_def split_last_colon decimal_digits decimal_not_Nil scan_nat_decimal)
  then show ?thesis
    using sint_nonneg_roundtrip(1) [OF True] by (simp add: w Host0_def)
next
  case False
  with assms have "port' x = - 1" and "CHR '':'' \<notin> set (host' x)" by auto
  then show ?thesis
    by (simp add: Host_write_def Host_parse_def Host0_def)
qed

lemma split_tokens_plain:
  "\<not> list_ex isspace t \<Longrightarrow> split_tokens cur (t @ rest) = split_tokens (rev t @ cur) rest"
  by (induction t arbitrary: cur) simp_all

lemma split_join_tokens:
  "list_all plain_token ts \<Longrightarrow> split_tokens [] (join_tokens ts) = ts"
proof (induction ts rule: join_tokens.induct)
  case 1
  show ?case by simp
next
  case (2 t)
  then show ?case
    using split_tokens_plain [of t "[]" "[]"] by (simp add: plain_token_def)
next
  case (3 t u us)
  then have "split_tokens [] (join_tokens (u # us)) = u # us" by simp
  moreover have "\<not> list_ex isspace t" and "t \<noteq> []"
    using 3 by (simp_all add: plain_token_def)
  ultimately show ?case
    using split_tokens_plain [of t "[]" "CHR '' '' # join_tokens (u # us)"]
    by (simp add: isspace_def)
qed

lemma Server_roundtrip:
  "list_all plain_token (tokens' x) \<Longrightarrow> Server_parse (Server_write x) = Inr x"
  by (simp add: Server_parse_def Server_write_def split_join_tokens Server0_def)

lemma ContentEncoding_roundtrip:
  "ContentEncoding_parseRaw (ContentEncoding_write x) (length (ContentEncoding_write x)) = Inr x"
  by (cases x; cases "encoding' x")
     (simp_all add: ContentEncoding_write_def ContentEncoding_parseRaw_def ContentEncoding0_def
        encoding_of_token_def trim_def isspace_def)

lemma takeWhile_sep: "x \<notin> set xs \<Longrightarrow> takeWhile (\<lambda>c. c \<noteq> x) (xs @ x # ys) = xs"
  by (induction xs) auto

lemma dropWhile_sep: "x \<notin> set xs \<Longrightarrow> dropWhile (\<lambda>c. c \<noteq> x) (xs @ x # ys) = x # ys"
  by (induction xs) auto

lemma takeWhile_none: "x \<notin> set xs \<Longrightarrow> takeWhile (\<lambda>c. c \<noteq> x) xs = xs"
  by (induction xs) auto

lemma type_token_no_slash: "map_of MIME_TYPES v = Some t \<Longrightarrow> CHR ''/'' \<notin> set t"
  by (cases v) (clarsimp simp: MIME_TYPES_def)+

lemma type_token_lookup:
  "map_of MIME_TYPES v = Some t \<Longrightarrow> token_lookup MIME_TYPES Type.Ext t = v"
  by (cases v) (clarsimp simp: MIME_TYPES_def token_lookup_def)+

lemma subtype_token_no_plus: "map_of MIME_SUBTYPES v = Some t \<Longrightarrow> CHR ''+'' \<notin> set t"
  by (cases v) (clarsimp simp: MIME_SUBTYPES_def)+

lemma subtype_token_lookup:
  "map_of MIME_SUBTYPES v = Some t \<Longrightarrow> token_lookup MIME_SUBTYPES Subtype.Ext t = v"
  by (cases v) (clarsimp simp: MIME_SUBTYPES_def token_lookup_def)+

lemma token_lookup_absent:
  "t \<notin> set (map snd table) \<Longrightarrow> token_lookup table ext t = ext"
proof -
  assume "t \<notin> set (map snd table)"
  then have "find (\<lambda>(v, lit). lit = t) table = None"
    by (force simp: find_None_iff)
  then show ?thesis by (simp add: token_lookup_def)
qed

lemma type_without_token: "map_of MIME_TYPES v = None \<Longrightarrow> v = Type.Ext"
  by (cases v) (simp_all add: MIME_TYPES_def)

lemma subtype_without_token: "map_of MIME_SUBTYPES v = None \<Longrightarrow> v = Subtype.Ext"
  by (cases v) (simp_all add: MIME_SUBTYPES_def)

lemma token_of_type:
  assumes "et \<notin> set (map snd MIME_TYPES)" and "CHR ''/'' \<notin> set et"
  shows "CHR ''/'' \<notin> set (token_of MIME_TYPES et v)"
    and "token_lookup MIME_TYPES Type.Ext (token_of MIME_TYPES et v) = v"
proof -
  show "CHR ''/'' \<notin> set (token_of MIME_TYPES et v)"
    using assms(2) type_token_no_slash [of v]
    by (cases "map_of MIME_TYPES v") (simp_all add: token_of_def)
  show "token_lookup MIME_TYPES Type.Ext (token_of MIME_TYPES et v) = v"
  proof (cases "map_of MIME_TYPES v")
    case None
    then show ?thesis
      using token_lookup_absent [OF assms(1)] type_without_token [of v]
      by (simp add: token_of_def)
  next
    case (Some t)
    then show ?thesis
      using type_token_lookup [of v t] by (simp add: token_of_def)
  qed
qed

lemma token_of_subtype:
  assumes "takeWhile (\<lambda>c. c \<noteq> CHR ''+'') es \<notin> set (map snd MIME_SUBTYPES)"
  shows "token_lookup MIME_SUBTYPES Subtype.Ext
           (takeWhile (\<lambda>c. c \<noteq> CHR ''+'') (token_of MIME_SUBTYPES es v)) = v"
proof (cases "map_of MIME_SUBTYPES v")
  case None
  then show ?thesis
    using token_lookup_absent [OF assms] subtype_without_token [of v]
    by (simp add: token_of_def)
next
  case (Some t)
  have "takeWhile (\<lambda>c. c \<noteq> CHR ''+'') t = t"
    by (rule takeWhile_none [OF subtype_token_no_plus [OF Some]])
  then show ?thesis
    using subtype_token_lookup [OF Some] Some by (simp only: token_of_def option.case)
qed

lemma fromString_top_sub:
  assumes "CHR ''/'' \<notin> set t" and "r = [] \<or> (\<exists>sf. r = CHR ''+'' # sf)"
  shows "top' (fromString (t @ ''/'' @ sb @ r)) = token_lookup MIME_TYPES Type.Ext t"
    and "sub (fromString (t @ ''/'' @ sb @ r))
           = token_lookup MIME_SUBTYPES Subtype.Ext (takeWhile (\<lambda>c. c \<noteq> CHR ''+'') sb)"
proof -
  have a: "t @ ''/'' @ sb @ r = t @ CHR ''/'' # (sb @ r)" by simp
  have b: "takeWhile (\<lambda>c. c \<noteq> CHR ''+'') (sb @ r) = takeWhile (\<lambda>c. c \<noteq> CHR ''+'') sb"
    using assms(2) by (auto simp: takeWhile_tail)
  show "top' (fromString (t @ ''/'' @ sb @ r)) = token_lookup MIME_TYPES Type.Ext t"
    unfolding a fromString_def Let_def
    by (simp only: takeWhile_sep [OF assms(1)] MediaType.select_convs)
  show "sub (fromString (t @ ''/'' @ sb @ r))
           = token_lookup MIME_SUBTYPES Subtype.Ext (takeWhile (\<lambda>c. c \<noteq> CHR ''+'') sb)"
    unfolding a fromString_def Let_def
    by (simp only: dropWhile_sep [OF assms(1)] drop_Suc_Cons drop_0 One_nat_def b
        MediaType.select_convs)
qed

lemma fromString_toString:
  assumes "et \<notin> set (map snd MIME_TYPES)" and "CHR ''/'' \<notin> set et"
    and "takeWhile (\<lambda>c. c \<noteq> CHR ''+'') es \<notin> set (map snd MIME_SUBTYPES)"
  shows "MediaType_eq (fromString (toString et es ex m)) m"
proof -
  let ?t = "token_of MIME_TYPES et (top' m)"
  let ?sb = "token_of MIME_SUBTYPES es (sub m)"
  let ?r = "if suffix m = Suffix.None' then [] else ''+'' @ token_of MIME_SUFFIXES ex (suffix m)"
  have r: "?r = [] \<or> (\<exists>sf. ?r = CHR ''+'' # sf)" by simp
  have w: "toString et es ex m = ?t @ ''/'' @ ?sb @ ?r"
    by (simp only: toString_def)
  note ts = fromString_top_sub [OF token_of_type(1) [OF assms(1,2), of "top' m"] r, of ?sb]
  show ?thesis
    unfolding MediaType_eq_def w ts
    using token_of_type(2) [OF assms(1,2), of "top' m"] token_of_subtype [OF assms(3), of "sub m"]
    by simp
qed

lemma ContentType_roundtrip:
  assumes "et \<notin> set (map snd MIME_TYPES)" and "CHR ''/'' \<notin> set et"
    and "takeWhile (\<lambda>c. c \<noteq> CHR ''+'') es \<notin> set (map snd MIME_SUBTYPES)"
  shows "\<exists>ct'. ContentType_parseRaw (ContentType_write et es ex ct)
                 (length (ContentType_write et es ex ct)) = Inr ct' \<and>
               MediaType_eq (mime' ct') (mime' ct)"
  using fromString_toString [OF assms, of ex "mime' ct"]
  by (simp add: ContentType_write_def ContentType_parseRaw_def fromRaw_def ContentType0_def)

section \<open>Parsing \<open>Content-Length\<close> and \<open>Content-Encoding\<close>\<close>

lemma scan_digits_scan_nat:
  "scan_digits (of_nat n) s = of_nat (scan_nat n (takeWhile isdigit s))"
proof (induction s arbitrary: n)
  case Nil
  show ?case by simp
next
  case (Cons c cs)
  show ?case
  proof (cases "isdigit c")
    case True
    have "scan_digits (of_nat n) (c # cs) = scan_digits (of_nat (n * 10 + digit_value c)) cs"
      using True by simp
    also have "\<dots> = of_nat (scan_nat (n * 10 + digit_value c) (takeWhile isdigit cs))"
      by (rule Cons.IH)
    finally show ?thesis using True by simp
  next
    case False
    then show ?thesis by simp
  qed
qed

lemma ContentLength_parse_cases:
  "ContentLength_parse input =
     (if takeWhile isdigit input = [] then Inl (MalformedHeaderValue (Name ContentLengthC) input)
      else Inr \<lparr>value' = of_nat (scan_nat 0 (takeWhile isdigit input))\<rparr>)"
proof (cases input)
  case Nil
  then show ?thesis by (simp add: ContentLength_parse_def)
next
  case (Cons c cs)
  show ?thesis
  proof (cases "isdigit c")
    case True
    then show ?thesis
      using scan_digits_scan_nat [of 0 input] Cons
      by (simp add: ContentLength_parse_def ContentLength0_def)
  next
    case False
    then show ?thesis using Cons by (simp add: ContentLength_parse_def)
  qed
qed

text \<open>
  Claim C7. \<open>ContentLength::parse\<close> scans a run of decimal digits into an unsigned 64-bit
  accumulator: the text \<open>12345\<close> gives the value 12345, and in general a text that starts
  with a digit gives the number its leading run of digits denotes, modulo \<open>2 ^ 64\<close>. An
  empty text, and a text whose first character is not a digit (such as \<open>abc\<close>), gives the
  malformed-value error and no header value at all.
\<close>

theorem ContentLength_parse_digits:
  "(\<exists>h. ContentLength_parse ''12345'' = Inr h \<and> ContentLength_value h = 12345) \<and>
   ContentLength_parse [] = Inl (MalformedHeaderValue ''Content-Length'' []) \<and>
   ContentLength_parse ''abc'' = Inl (MalformedHeaderValue ''Content-Length'' ''abc'') \<and>
   (takeWhile isdigit input = [] \<longrightarrow>
      ContentLength_parse input = Inl (MalformedHeaderValue ''Content-Length'' input)) \<and>
   (takeWhile isdigit input \<noteq> [] \<longrightarrow>
      (\<exists>h. ContentLength_parse input = Inr h \<and>
           ContentLength_value h = of_nat (scan_nat 0 (takeWhile isdigit input))))"
proof -
  have "ContentLength_parse ''12345'' = Inr \<lparr>value' = 12345\<rparr>"
    by (simp add: ContentLength_parse_def ContentLength0_def isdigit_def digit_value_def)
  moreover have "ContentLength_parse ''abc'' = Inl (MalformedHeaderValue ''Content-Length'' ''abc'')"
    by (simp add: ContentLength_parse_def isdigit_def)
  ultimately show ?thesis
    by (simp add: ContentLength_parse_cases [of input] ContentLength_value_def)
       (simp add: ContentLength_parse_def)
qed

theorem ContentLength_parse_digits_witness:
  "ContentLength_parse ''x64'' = Inl (MalformedHeaderValue ''Content-Length'' ''x64'') \<and>
   (\<exists>h. ContentLength_parse ''64; q'' = Inr h \<and> ContentLength_value h = 64)"
proof -
  have a: "takeWhile isdigit ''x64'' = []" by (simp add: isdigit_def)
  have b: "takeWhile isdigit ''64; q'' = ''64''" by (simp add: isdigit_def)
  have c: "scan_nat 0 ''64'' = 64" by (simp add: digit_value_def)
  show ?thesis
    using ContentLength_parse_digits [of "''x64''"] ContentLength_parse_digits [of "''64; q''"]
    by (simp only: a b c) simp
qed

text \<open>
  Claim C8. \<open>ContentEncoding::parseRaw\<close> never fails: for every input it returns a header.
  The trimmed token is matched case-sensitively against \<open>gzip\<close>, \<open>compress\<close>, \<open>deflate\<close>
  and \<open>identity\<close>; the result is \<open>Unknown\<close> exactly when the token is none of the four,
  and otherwise the coding whose literal the token is. \<open>gzip\<close> gives \<open>Gzip\<close>, \<open>brotli\<close>
  and \<open>GZIP\<close> give \<open>Unknown\<close>.
\<close>

theorem ContentEncoding_parseRaw_total:
  "(\<exists>h. ContentEncoding_parseRaw str len = Inr h \<and>
        (encoding' h = Unknown) = (trim (take len str) \<notin> {''gzip'', ''compress'', ''deflate'', ''identity''}) \<and>
        (encodingString (encoding' h) = trim (take len str) \<or> encoding' h = Unknown)) \<and>
   ContentEncoding_parseRaw ''gzip'' 4 = Inr \<lparr>encoding' = Gzip\<rparr> \<and>
   ContentEncoding_parseRaw ''brotli'' 6 = Inr \<lparr>encoding' = Unknown\<rparr> \<and>
   ContentEncoding_parseRaw ''GZIP'' 4 = Inr \<lparr>encoding' = Unknown\<rparr>"
  by (simp add: ContentEncoding_parseRaw_def ContentEncoding0_def encoding_of_token_def
      trim_def isspace_def)

section \<open>Writing and parsing back\<close>

text \<open>
  Claim C6, amended. Parsing what \<open>write\<close> produced gives the value back
  \<^item> for every \<open>ContentLength\<close>;
  \<^item> for every \<open>Host\<close> whose port is not negative, and for every \<open>Host\<close> whose port is
    \<open>-1\<close> and whose host holds no colon;
  \<^item> for every \<open>Server\<close> whose tokens are non-empty and free of whitespace;
  \<^item> for every \<open>ContentEncoding\<close>, \<open>Unknown\<close> with its literal \<open>unknown\<close> included;
  \<^item> for every \<open>ContentType\<close>, up to the suffix-insensitive equality of media types and
    whatever is written for a suffix, as long as what is written for \<open>Type::Ext\<close> and for
    \<open>Subtype::Ext\<close> parses back as \<open>Ext\<close>: the text for \<open>Type::Ext\<close> is no token of the
    type table and holds no slash, and the text for \<open>Subtype::Ext\<close>, up to its first plus
    sign, is no token of the subtype table.
\<close>

theorem roundtrip_of_unambiguous_values:
  "ContentLength_parse (ContentLength_write cl) = Inr cl \<and>
   ((port' h = - 1 \<and> CHR '':'' \<notin> set (host' h)) \<or> 0 \<le> sint (port' h) \<longrightarrow>
      Host_parse (Host_write h) = Inr h) \<and>
   (list_all plain_token (tokens' s) \<longrightarrow> Server_parse (Server_write s) = Inr s) \<and>
   ContentEncoding_parseRaw (ContentEncoding_write ce) (length (ContentEncoding_write ce)) = Inr ce \<and>
   (et \<notin> set (map snd MIME_TYPES) \<and> CHR ''/'' \<notin> set et \<and>
    takeWhile (\<lambda>c. c \<noteq> CHR ''+'') es \<notin> set (map snd MIME_SUBTYPES) \<longrightarrow>
      (\<exists>ct'. ContentType_parseRaw (ContentType_write et es ex ct)
                (length (ContentType_write et es ex ct)) = Inr ct' \<and>
             MediaType_eq (mime' ct') (mime' ct)))"
proof (intro conjI impI)
  show "ContentLength_parse (ContentLength_write cl) = Inr cl"
    by (rule ContentLength_roundtrip)
  show "Host_parse (Host_write h) = Inr h"
    if "(port' h = - 1 \<and> CHR '':'' \<notin> set (host' h)) \<or> 0 \<le> sint (port' h)"
    using that by (rule Host_roundtrip)
  show "Server_parse (Server_write s) = Inr s" if "list_all plain_token (tokens' s)"
    using that by (rule Server_roundtrip)
  show "ContentEncoding_parseRaw (ContentEncoding_write ce) (length (ContentEncoding_write ce))
      = Inr ce"
    by (rule ContentEncoding_roundtrip)
  show "\<exists>ct'. ContentType_parseRaw (ContentType_write et es ex ct)
                (length (ContentType_write et es ex ct)) = Inr ct' \<and>
             MediaType_eq (mime' ct') (mime' ct)"
    if "et \<notin> set (map snd MIME_TYPES) \<and> CHR ''/'' \<notin> set et \<and>
        takeWhile (\<lambda>c. c \<noteq> CHR ''+'') es \<notin> set (map snd MIME_SUBTYPES)"
    using that ContentType_roundtrip [of et es ex ct] by simp
qed

theorem roundtrip_of_unambiguous_values_witness:
  "ContentLength_parse (ContentLength_write \<lparr>value' = 12345\<rparr>) = Inr \<lparr>value' = 12345\<rparr> \<and>
   Host_parse (Host_write \<lparr>host' = ''example.com'', port' = 8080\<rparr>)
     = Inr \<lparr>host' = ''example.com'', port' = 8080\<rparr> \<and>
   Server_parse (Server_write \<lparr>tokens' = [''foo/1.0'', ''bar/2.0'']\<rparr>)
     = Inr \<lparr>tokens' = [''foo/1.0'', ''bar/2.0'']\<rparr> \<and>
   ContentEncoding_parseRaw (ContentEncoding_write \<lparr>encoding' = Unknown\<rparr>)
       (length (ContentEncoding_write \<lparr>encoding' = Unknown\<rparr>))
     = Inr \<lparr>encoding' = Unknown\<rparr> \<and>
   (\<exists>ct'. ContentType_parseRaw
            (ContentType_write ''x-type'' ''x-subtype'' ''x-suffix''
               \<lparr>mime' = MediaType3 Type.Ext Subtype.Xhtml Suffix.Ext\<rparr>)
            (length (ContentType_write ''x-type'' ''x-subtype'' ''x-suffix''
               \<lparr>mime' = MediaType3 Type.Ext Subtype.Xhtml Suffix.Ext\<rparr>)) = Inr ct' \<and>
          MediaType_eq (mime' ct') (MediaType3 Type.Ext Subtype.Xhtml Suffix.Ext))"
proof -
  have p: "0 \<le> sint (8080 :: int16_t)" by simp
  have t: "list_all plain_token [''foo/1.0'', ''bar/2.0'']"
    by (simp add: plain_token_def isspace_def)
  have e: "''x-type'' \<notin> set (map snd MIME_TYPES) \<and> CHR ''/'' \<notin> set ''x-type'' \<and>
      takeWhile (\<lambda>c. c \<noteq> CHR ''+'') ''x-subtype'' \<notin> set (map snd MIME_SUBTYPES)"
    by (simp add: MIME_TYPES_def MIME_SUBTYPES_def)
  show ?thesis
    using roundtrip_of_unambiguous_values
      [where cl = "\<lparr>value' = 12345\<rparr>"
         and h = "\<lparr>host' = ''example.com'', port' = 8080\<rparr>"
         and s = "\<lparr>tokens' = [''foo/1.0'', ''bar/2.0'']\<rparr>"
         and ce = "\<lparr>encoding' = Unknown\<rparr>"
         and et = "''x-type''" and es = "''x-subtype''" and ex = "''x-suffix''"
         and ct = "\<lparr>mime' = MediaType3 Type.Ext Subtype.Xhtml Suffix.Ext\<rparr>"] p t e
    by simp
qed

lemma digit_char_2: "digit_char 2 = CHR ''2''"
  by code_simp

text \<open>
  Claim C6 as stated covers every value. A \<open>Server\<close> built from the single token
  \<open>Apache/2.4 (Unix)\<close> is written with its space and parsed back as two tokens. A \<open>Host\<close>
  whose host is \<open>example.com:80\<close> and whose port is absent is written as \<open>example.com:80\<close>
  and parsed back as the host \<open>example.com\<close> with port 80. A \<open>Host\<close> with the port \<open>-2\<close> is
  written as \<open>example.com:-2\<close>, which \<open>parse\<close> reports as malformed. And were \<open>Ext\<close>
  written as a token of the tables, say \<open>*\<close>, the default media type would be written as
  \<open>*/*\<close> and parsed back as another one.
\<close>

theorem roundtrip_fails_on_ambiguous_values:
  "Server_parse (Server_write \<lparr>tokens' = [''Apache/2.4 (Unix)'']\<rparr>)
     = Inr \<lparr>tokens' = [''Apache/2.4'', ''(Unix)'']\<rparr> \<and>
   Host_parse (Host_write \<lparr>host' = ''example.com:80'', port' = - 1\<rparr>)
     = Inr \<lparr>host' = ''example.com'', port' = 80\<rparr> \<and>
   Host_parse (Host_write \<lparr>host' = ''example.com'', port' = - 2\<rparr>)
     = Inl (MalformedHeaderValue ''Host'' ''example.com:-2'') \<and>
   ContentType_parseRaw (ContentType_write ''*'' ''*'' ''*'' \<lparr>mime' = MediaType0\<rparr>) 3
     = Inr \<lparr>mime' = MediaType2 Type.Star Subtype.Star\<rparr> \<and>
   \<not> MediaType_eq (MediaType2 Type.Star Subtype.Star) MediaType0"
proof -
  have "ContentType_write ''*'' ''*'' ''*'' \<lparr>mime' = MediaType0\<rparr> = ''*/*''"
    by (simp add: ContentType_write_def toString_def token_of_def MediaType0_def
        MIME_TYPES_def MIME_SUBTYPES_def)
  moreover have "ContentType_parseRaw ''*/*'' 3 = Inr \<lparr>mime' = MediaType2 Type.Star Subtype.Star\<rparr>"
    by (simp add: ContentType_parseRaw_def ContentType0_def fromRaw_def fromString_def
        token_lookup_def MIME_TYPES_def MIME_SUBTYPES_def MediaType2_def)
  ultimately show ?thesis
    by (simp add: Server_write_def Server_parse_def Server0_def isspace_def
        Host_write_def Host_parse_def Host0_def after_last_colon_def before_last_colon_def
        isdigit_def digit_value_def show_int_def decimal.simps [of 2] digit_char_2
        MediaType_eq_def MediaType2_def MediaType0_def)
qed

section \<open>Tokens outside the closed tables\<close>

lemma UNIV_Type:
  "(UNIV :: Type set) =
     {Type.Star, Type.Text, Type.Image, Type.Audio, Type.Video, Type.Application,
      Type.Message, Type.Multipart, Type.Ext}"
proof -
  have "x \<in> {Type.Star, Type.Text, Type.Image, Type.Audio, Type.Video, Type.Application,
      Type.Message, Type.Multipart, Type.Ext}" for x
    by (cases x) simp_all
  then show ?thesis by blast
qed

lemma UNIV_Subtype:
  "(UNIV :: Subtype set) =
     {Subtype.Star, Subtype.Plain, Subtype.Html, Subtype.Xhtml, Subtype.Xml,
      Subtype.Javascript, Subtype.Css, Subtype.Json, Subtype.FormUrlEncoded, Subtype.Png,
      Subtype.Gif, Subtype.Bmp, Subtype.Jpeg, Subtype.Ext}"
proof -
  have "x \<in> {Subtype.Star, Subtype.Plain, Subtype.Html, Subtype.Xhtml, Subtype.Xml,
      Subtype.Javascript, Subtype.Css, Subtype.Json, Subtype.FormUrlEncoded, Subtype.Png,
      Subtype.Gif, Subtype.Bmp, Subtype.Jpeg, Subtype.Ext}" for x
    by (cases x) simp_all
  then show ?thesis by blast
qed

lemma UNIV_Suffix:
  "(UNIV :: Suffix set) =
     {Suffix.Json, Suffix.Ber, Suffix.Der, Suffix.Fastinfoset, Suffix.Wbxml, Suffix.Zip,
      Suffix.Xml, Suffix.None', Suffix.Ext}"
proof -
  have "x \<in> {Suffix.Json, Suffix.Ber, Suffix.Der, Suffix.Fastinfoset, Suffix.Wbxml, Suffix.Zip,
      Suffix.Xml, Suffix.None', Suffix.Ext}" for x
    by (cases x) simp_all
  then show ?thesis by blast
qed

lemma finite_MediaType: "finite (UNIV :: MediaType set)"
proof -
  have fT: "finite (UNIV :: Type set)" by (simp only: UNIV_Type) simp
  have fS: "finite (UNIV :: Subtype set)" by (simp only: UNIV_Subtype) simp
  have fX: "finite (UNIV :: Suffix set)" by (simp only: UNIV_Suffix) simp
  have "m \<in> (\<lambda>(a, b, c). \<lparr>top' = a, sub = b, suffix = c\<rparr>) ` (UNIV \<times> UNIV \<times> UNIV)"
    for m :: MediaType
  proof -
    have "m = (\<lambda>(a, b, c). \<lparr>top' = a, sub = b, suffix = c\<rparr>) (top' m, sub m, suffix m)"
      by simp
    then show ?thesis by blast
  qed
  then have "(UNIV :: MediaType set)
      \<subseteq> (\<lambda>(a, b, c). \<lparr>top' = a, sub = b, suffix = c\<rparr>) ` (UNIV \<times> UNIV \<times> UNIV)"
    by blast
  moreover have "finite ((UNIV :: Type set) \<times> (UNIV :: Subtype set) \<times> (UNIV :: Suffix set))"
    by (intro finite_cartesian_product fT fS fX)
  ultimately show ?thesis
    by (rule finite_subset [OF _ finite_imageI])
qed

lemma z_not_type_token: "replicate (Suc n) (CHR ''z'') \<notin> set (map snd MIME_TYPES)"
proof
  assume a: "replicate (Suc n) (CHR ''z'') \<in> set (map snd MIME_TYPES)"
  have "\<forall>t \<in> set (map snd MIME_TYPES). CHR ''z'' \<notin> set t"
    by (simp add: MIME_TYPES_def)
  with a have "CHR ''z'' \<notin> set (replicate (Suc n) (CHR ''z''))" by blast
  then show False by simp
qed

lemma z_not_subtype_token: "''z'' \<notin> set (map snd MIME_SUBTYPES)"
  by (simp add: MIME_SUBTYPES_def)

lemma unknown_text_inj: "unknown_text i = unknown_text j \<Longrightarrow> i = j"
proof -
  assume "unknown_text i = unknown_text j"
  then have "length (unknown_text i) = length (unknown_text j)" by simp
  then show "i = j" by (simp add: unknown_text_def)
qed

lemma some_unknown_text_is_lost:
  fixes from_string :: "string \<Rightarrow> MediaType" and to_string :: "MediaType \<Rightarrow> string"
  shows "\<exists>n. to_string (from_string (unknown_text n)) \<noteq> unknown_text n"
proof (rule ccontr)
  assume "\<not> ?thesis"
  then have rt: "to_string (from_string (unknown_text n)) = unknown_text n" for n by blast
  have "inj (\<lambda>n. from_string (unknown_text n))"
  proof (rule injI)
    fix i j assume "from_string (unknown_text i) = from_string (unknown_text j)"
    then have "to_string (from_string (unknown_text i)) = to_string (from_string (unknown_text j))"
      by simp
    then show "i = j" using rt unknown_text_inj by simp
  qed
  moreover have "finite (range (\<lambda>n. from_string (unknown_text n)))"
    using finite_MediaType by (rule rev_finite_subset) simp
  ultimately have "finite (UNIV :: nat set)" by (rule finite_imageD [rotated])
  then show False by simp
qed

lemma unknown_text_lost:
  fixes from_string :: "string \<Rightarrow> MediaType" and to_string :: "MediaType \<Rightarrow> string"
  shows "\<exists>t sb. t \<notin> set (map snd MIME_TYPES) \<and> sb \<notin> set (map snd MIME_SUBTYPES) \<and>
       to_string (from_string (t @ ''/'' @ sb)) \<noteq> t @ ''/'' @ sb"
proof -
  obtain n where "to_string (from_string (unknown_text n)) \<noteq> unknown_text n"
    using some_unknown_text_is_lost [of to_string from_string] ..
  then have lost: "to_string (from_string (replicate (Suc n) (CHR ''z'') @ ''/'' @ ''z''))
      \<noteq> replicate (Suc n) (CHR ''z'') @ ''/'' @ ''z''"
    by (simp add: unknown_text_def)
  show ?thesis
  proof (intro conjI exI)
    show "replicate (Suc n) (CHR ''z'') \<notin> set (map snd MIME_TYPES)" by (rule z_not_type_token)
    show "''z'' \<notin> set (map snd MIME_SUBTYPES)" by (rule z_not_subtype_token)
    show "to_string (from_string (replicate (Suc n) (CHR ''z'') @ ''/'' @ ''z''))
      \<noteq> replicate (Suc n) (CHR ''z'') @ ''/'' @ ''z''" by (rule lost)
  qed
qed

text \<open>
  Claim C4, amended. \<open>Type\<close>, \<open>Subtype\<close> and \<open>Suffix\<close> are plain enumerations: \<open>Ext\<close> is
  one enumerator that holds no text, and a \<open>MediaType\<close> is one of finitely many triples of
  enumerators. So tokens outside the closed tables do not survive parsing: whatever
  \<open>fromString\<close> and \<open>toString\<close> compute, there is a text \<open>type/subtype\<close> with both
  tokens outside the tables that parsing and re-serializing does not reproduce.
\<close>

theorem Ext_carries_no_text:
  fixes from_string :: "string \<Rightarrow> MediaType" and to_string :: "MediaType \<Rightarrow> string"
  shows "finite (UNIV :: MediaType set) \<and>
    (\<exists>t sb. t \<notin> set (map snd MIME_TYPES) \<and> sb \<notin> set (map snd MIME_SUBTYPES) \<and>
       to_string (from_string (t @ ''/'' @ sb)) \<noteq> t @ ''/'' @ sb)"
  using finite_MediaType unknown_text_lost [of to_string from_string] by (rule conjI)

text \<open>
  Claim C4 as stated, that every token outside the tables is reproduced by \<open>fromString\<close>
  followed by \<open>toString\<close>, holds for no pair of functions of the declared types.
\<close>

theorem unknown_tokens_cannot_all_roundtrip:
  "\<not> (\<exists>(from_string :: string \<Rightarrow> MediaType) (to_string :: MediaType \<Rightarrow> string).
        \<forall>t sb. t \<notin> set (map snd MIME_TYPES) \<and> sb \<notin> set (map snd MIME_SUBTYPES) \<longrightarrow>
          to_string (from_string (t @ ''/'' @ sb)) = t @ ''/'' @ sb)"
proof (rule notI, elim exE)
  fix from_string :: "string \<Rightarrow> MediaType" and to_string :: "MediaType \<Rightarrow> string"
  assume a: "\<forall>t sb. t \<notin> set (map snd MIME_TYPES) \<and> sb \<notin> set (map snd MIME_SUBTYPES) \<longrightarrow>
          to_string (from_string (t @ ''/'' @ sb)) = t @ ''/'' @ sb"
  obtain t sb where 1: "t \<notin> set (map snd MIME_TYPES)" and 2: "sb \<notin> set (map snd MIME_SUBTYPES)"
    and 3: "to_string (from_string (t @ ''/'' @ sb)) \<noteq> t @ ''/'' @ sb"
    using unknown_text_lost [of to_string from_string] by (elim exE conjE)
  have "to_string (from_string (t @ ''/'' @ sb)) = t @ ''/'' @ sb"
    by (rule a [rule_format, OF conjI [OF 1 2]])
  with 3 show False by (rule notE)
qed

end
